theory Spec2Isabelle
  imports Main "HOL-Library.DAList" "HOL-Library.Sublist"
begin

section \<open>The admin route of the workshop app\<close>

text \<open>
  The development embeds \<^verbatim>\<open>packages/workshop-app/app/routes/admin/index.tsx\<close>
  (\<^verbatim>\<open>loader\<close>, \<^verbatim>\<open>action\<close>, \<^verbatim>\<open>AdminLayout\<close>) and the client-hint utilities
  (\<^verbatim>\<open>clientHints\<close>, \<^verbatim>\<open>getCookieValue\<close>, \<^verbatim>\<open>getHints\<close>). Strings are
  \<^typ>\<open>string\<close>, JavaScript numbers that hold ports, pids and exit codes are \<^typ>\<open>int\<close>,
  array indices are \<^typ>\<open>nat\<close> and the result of \<^verbatim>\<open>findIndex\<close> is an \<^typ>\<open>int\<close>
  because it can be \<open>-1\<close>.
\<close>

subsection \<open>Arrays\<close>

text \<open>
  \<^verbatim>\<open>Array.prototype.findIndex\<close>: the index of the first element that satisfies the
  callback, \<open>-1\<close> when there is none.
\<close>

fun findIndex :: "('a \<Rightarrow> bool) \<Rightarrow> 'a list \<Rightarrow> int" where
  "findIndex p [] = -1"
| "findIndex p (x # xs) =
     (if p x then 0 else (let r = findIndex p xs in if r < 0 then -1 else r + 1))"

text \<open>
  \<^verbatim>\<open>Array.prototype.filter\<close> with the three-argument callback
  \<^verbatim>\<open>(element, index, array)\<close>. \<open>filter_from i p ar xs\<close> runs the loop over the
  remaining elements \<open>xs\<close>, the first of which has index \<open>i\<close> in the whole array \<open>ar\<close>.
\<close>

fun filter_from :: "nat \<Rightarrow> ('a \<Rightarrow> nat \<Rightarrow> 'a list \<Rightarrow> bool) \<Rightarrow> 'a list \<Rightarrow> 'a list \<Rightarrow> 'a list" where
  "filter_from i p ar [] = []"
| "filter_from i p ar (x # xs) =
     (if p x i ar then x # filter_from (Suc i) p ar xs else filter_from (Suc i) p ar xs)"

definition Array_filter :: "('a \<Rightarrow> nat \<Rightarrow> 'a list \<Rightarrow> bool) \<Rightarrow> 'a list \<Rightarrow> 'a list" where
  "Array_filter p ar = filter_from 0 p ar ar"

subsection \<open>The app catalog\<close>

text \<open>
  Modelled from the spec: the \<^verbatim>\<open>App\<close> record that the content catalog
  (\<^verbatim>\<open>getApps\<close>) supplies, with the fields of the data model (\<open>name\<close>,
  \<open>displayName\<close>, \<open>fullPath\<close>). Its type is declared outside the embedded files; the
  route reads \<open>name\<close> only.
\<close>

record app =
  name :: string
  displayName :: string
  fullPath :: string

text \<open>
  The loader's \<^verbatim>\<open>apps\<close>:
  \<^verbatim>\<open>(await getApps(...)).filter((a, i, ar) => ar.findIndex(b => a.name === b.name) === i)\<close>.
  The argument is the array that \<^verbatim>\<open>getApps\<close> resolved to.
\<close>

definition first_of_its_name :: "app \<Rightarrow> nat \<Rightarrow> app list \<Rightarrow> bool" where
  "first_of_its_name a i ar \<longleftrightarrow> findIndex (\<lambda>b. name a = name b) ar = int i"

definition loader_apps :: "app list \<Rightarrow> app list" where
  "loader_apps catalog = Array_filter first_of_its_name catalog"

subsection \<open>JavaScript values and ordinary objects\<close>

text \<open>
  The primitive values that the loader's objects hold (\<^verbatim>\<open>pid?: number\<close>,
  \<^verbatim>\<open>exitCode?: number | null\<close>, \<^verbatim>\<open>color: string\<close>).
\<close>

datatype js_value = JUndefined | JNull | JNumber int | JString string

text \<open>
  An ordinary object created by \<^verbatim>\<open>{}\<close> or by an object literal: its own
  properties, in creation order. Its prototype is \<^verbatim>\<open>Object.prototype\<close>.
\<close>

type_synonym 'v js_object = "(string \<times> 'v) list"

text \<open>
  A property key is an array index when it is the canonical decimal string of an
  integer below \<open>2\<^sup>3\<^sup>2 - 1\<close>: such keys are enumerated first, in ascending numeric
  order, the other string keys after them in creation order (OrdinaryOwnPropertyKeys).
\<close>

definition is_digit :: "char \<Rightarrow> bool" where
  "is_digit c \<longleftrightarrow> c \<in> set ''0123456789''"

definition digits_value :: "string \<Rightarrow> nat" where
  "digits_value s = foldl (\<lambda>n c. 10 * n + (of_char c - 48)) 0 s"

definition is_array_index :: "string \<Rightarrow> bool" where
  "is_array_index s \<longleftrightarrow>
     s \<noteq> [] \<and> list_all is_digit s \<and> (s = ''0'' \<or> hd s \<noteq> CHR ''0'')
     \<and> digits_value s < 2 ^ 32 - 1"

text \<open>\<^verbatim>\<open>Object.entries(obj)\<close>, which is also the order \<^verbatim>\<open>JSON.stringify\<close> writes.\<close>

definition Object_entries :: "'v js_object \<Rightarrow> (string \<times> 'v) list" where
  "Object_entries obj =
     sort_key (\<lambda>kv. digits_value (fst kv)) (filter (\<lambda>kv. is_array_index (fst kv)) obj)
     @ filter (\<lambda>kv. \<not> is_array_index (fst kv)) obj"

text \<open>
  The assignment \<^verbatim>\<open>obj[k] = v\<close> on such an object: an existing own property keeps
  its place and takes the new value, a new one is created last. The key
  \<^verbatim>\<open>__proto__\<close> is the accessor inherited from \<^verbatim>\<open>Object.prototype\<close>: the
  assignment calls its setter and creates no own property (the prototype it may
  replace is not modelled: nothing in the embedded code reads it before the object is
  serialised).
\<close>

definition obj_set :: "'v js_object \<Rightarrow> string \<Rightarrow> 'v \<Rightarrow> 'v js_object" where
  "obj_set obj k v = (if k = ''__proto__'' then obj else AList.update k v obj)"

text \<open>The read \<^verbatim>\<open>obj.k\<close> of a data field; a missing field reads \<^verbatim>\<open>undefined\<close>.\<close>

definition obj_get :: "js_value js_object \<Rightarrow> string \<Rightarrow> js_value" where
  "obj_get obj k = (case map_of obj k of Some v \<Rightarrow> v | None \<Rightarrow> JUndefined)"



text \<open>
  What \<^verbatim>\<open>JSON.parse(JSON.stringify(obj))\<close> gives: the own properties in enumeration
  order, a property whose value is \<^verbatim>\<open>undefined\<close> left out. \<open>json_fields\<close> is for an
  object of primitive values, \<open>json_object\<close> for an object of such objects.
\<close>

definition json_fields :: "js_value js_object \<Rightarrow> js_value js_object" where
  "json_fields obj = filter (\<lambda>kv. snd kv \<noteq> JUndefined) (Object_entries obj)"

definition json_object :: "js_value js_object js_object \<Rightarrow> js_value js_object js_object" where
  "json_object obj = map (\<lambda>kv. (fst kv, json_fields (snd kv))) (Object_entries obj)"

subsection \<open>The process registries\<close>

text \<open>
  \<^verbatim>\<open>getProcesses()\<close> returns the two registries, \<^verbatim>\<open>devProcesses\<close> and
  \<^verbatim>\<open>testProcesses\<close>; the loader iterates their \<^verbatim>\<open>entries()\<close> and destructures
  \<^verbatim>\<open>[name, {port, process, color}]\<close> and \<^verbatim>\<open>[name, {process, exitCode}]\<close>, so each is
  a JavaScript \<^verbatim>\<open>Map\<close> keyed by app name: keys are unique, \<^verbatim>\<open>set\<close> on an existing
  key keeps its place, and iteration follows insertion order. A \<^verbatim>\<open>Map\<close> is an
  association list with distinct keys in insertion order (\<^typ>\<open>('k, 'v) alist\<close>);
  \<open>Map_set\<close> is given for building registry states.
\<close>

record child_process =
  pid :: "int option"

record dev_process =
  port :: int
  process :: child_process
  color :: string

record test_process =
  process :: "child_process option"
  exitCode :: js_value

definition Map_entries :: "('k, 'v) alist \<Rightarrow> ('k \<times> 'v) list" where
  "Map_entries m = DAList.impl_of m"

definition Map_set :: "('k, 'v) alist \<Rightarrow> 'k \<Rightarrow> 'v \<Rightarrow> ('k, 'v) alist" where
  "Map_set m k v = DAList.update k v m"

datatype inspector_call = Inspector_open | Inspector_close

text \<open>
  Modelled from the spec: the port allocator's state, \<open>usedPorts\<close> (a set of int) and
  the configured range \<open>[min, max]\<close>. No embedded file declares or mentions an
  allocator.
\<close>

record port_allocator =
  usedPorts :: "int set"
  port_range :: "int \<times> int"

text \<open>
  The state that outlives a request: the two registries, the global
  \<^verbatim>\<open>__inspector_open__\<close> (\<^verbatim>\<open>boolean | undefined\<close>), the calls made so far on the
  external inspector, the lines written with \<^verbatim>\<open>console.info\<close>, and the allocator.
\<close>

record server_state =
  devProcesses :: "(string, dev_process) alist"
  testProcesses :: "(string, test_process) alist"
  inspector_open :: "bool option"
  inspector_calls :: "inspector_call list"
  console :: "string list"
  allocator :: port_allocator

subsection \<open>Exceptions and callees outside the embedded files\<close>

text \<open>
  \<open>Error m\<close> is \<^verbatim>\<open>new Error(m)\<close> thrown by the embedded code. \<open>Thrown_by c\<close> is
  whatever a callee \<open>c\<close> outside the embedded files throws. Such a callee
  (\<^verbatim>\<open>ensureUndeployed\<close>, \<^verbatim>\<open>getApps\<close>, \<^verbatim>\<open>inspector.open\<close>,
  \<^verbatim>\<open>inspector.close\<close>) is a parameter: its outcome, \<open>None\<close> when it returns and
  \<open>Some e\<close> when it throws \<open>e\<close>.
\<close>

datatype exn = Error string | Thrown_by string

record inspector =
  open_outcome :: "exn option"
  close_outcome :: "exn option"

subsection \<open>The loader\<close>

definition pid_value :: "int option \<Rightarrow> js_value" where
  "pid_value p = (case p of None \<Rightarrow> JUndefined | Some n \<Rightarrow> JNumber n)"

text \<open>
  The object literals \<^verbatim>\<open>{ port, pid: process.pid, color }\<close> and
  \<^verbatim>\<open>{ pid: process?.pid, exitCode }\<close>.
\<close>

definition dev_entry :: "dev_process \<Rightarrow> js_value js_object" where
  "dev_entry e =
     [(''port'', JNumber (port e)),
      (''pid'', pid_value (pid (dev_process.process e))),
      (''color'', JString (color e))]"

definition test_entry :: "test_process \<Rightarrow> js_value js_object" where
  "test_entry e =
     [(''pid'', (case test_process.process e of None \<Rightarrow> JUndefined
                 | Some p \<Rightarrow> pid_value (pid p))),
      (''exitCode'', exitCode e)]"

text \<open>
  \<^verbatim>\<open>for (const [name, {port, process, color}] of getProcesses().devProcesses.entries())
    processes[name] = { port, pid: process.pid, color }\<close>
\<close>

fun dev_loop ::
  "(string \<times> dev_process) list \<Rightarrow> js_value js_object js_object \<Rightarrow> js_value js_object js_object" where
  "dev_loop [] processes = processes"
| "dev_loop ((nm, e) # rest) processes = dev_loop rest (obj_set processes nm (dev_entry e))"

text \<open>
  \<^verbatim>\<open>for (const [name, {process, exitCode}] of getProcesses().testProcesses.entries())
    testProcesses[name] = { pid: process?.pid, exitCode }\<close>
\<close>

fun test_loop ::
  "(string \<times> test_process) list \<Rightarrow> js_value js_object js_object \<Rightarrow> js_value js_object js_object" where
  "test_loop [] tests = tests"
| "test_loop ((nm, e) # rest) tests = test_loop rest (obj_set tests nm (test_entry e))"

text \<open>The object given to \<^verbatim>\<open>json(...)\<close>.\<close>

record loader_data =
  apps :: "app list"
  processes :: "js_value js_object js_object"
  testProcesses :: "js_value js_object js_object"
  inspectorRunning :: "bool option"

text \<open>
  \<^verbatim>\<open>loader\<close>, with the state passed through. The parameters are the outcome of
  \<^verbatim>\<open>ensureUndeployed()\<close> and what \<^verbatim>\<open>getApps\<close> resolved to or rejected with.
  The \<^verbatim>\<open>Server-Timing\<close> header is not modelled.
\<close>

definition loader ::
  "exn option \<Rightarrow> exn + app list \<Rightarrow> server_state \<Rightarrow> (exn + loader_data) \<times> server_state" where
  "loader ensureUndeployed getApps s =
     (case ensureUndeployed of
        Some e \<Rightarrow> (Inl e, s)
      | None \<Rightarrow>
         (case getApps of
            Inl e \<Rightarrow> (Inl e, s)
          | Inr catalog \<Rightarrow>
             (Inr \<lparr> apps = loader_apps catalog,
                    processes = dev_loop (Map_entries (devProcesses s)) [],
                    testProcesses = test_loop (Map_entries (server_state.testProcesses s)) [],
                    inspectorRunning = inspector_open s \<rparr>,
              s)))"

subsection \<open>The page\<close>

text \<open>
  \<^verbatim>\<open>useLoaderData\<close>: the loader's object after \<^verbatim>\<open>JSON.stringify\<close> on the server and
  \<^verbatim>\<open>JSON.parse\<close> for the page. App records hold strings and pass unchanged; an
  \<^verbatim>\<open>undefined\<close> \<^verbatim>\<open>inspectorRunning\<close> is left out and reads \<^verbatim>\<open>undefined\<close> again.
\<close>

definition useLoaderData :: "loader_data \<Rightarrow> loader_data" where
  "useLoaderData d =
     d \<lparr> processes := json_object (processes d),
         testProcesses := json_object (loader_data.testProcesses d) \<rparr>"

datatype pinger_status = running | starting | stopped | taken


definition process_items :: "loader_data \<Rightarrow> (string \<times> js_value \<times> js_value \<times> js_value) list" where
  "process_items d =
     map (\<lambda>kv. (fst kv, obj_get (snd kv) ''port'', obj_get (snd kv) ''pid'',
                 obj_get (snd kv) ''color''))
       (Object_entries (processes d))"

definition test_process_items :: "loader_data \<Rightarrow> (string \<times> js_value \<times> js_value) list" where
  "test_process_items d =
     map (\<lambda>kv. (fst kv, obj_get (snd kv) ''pid'', obj_get (snd kv) ''exitCode''))
       (Object_entries (loader_data.testProcesses d))"

subsection \<open>The action\<close>

text \<open>
  \<^verbatim>\<open>formData.get('intent')\<close> is a string, a \<^verbatim>\<open>File\<close> or \<^verbatim>\<open>null\<close>;
  \<open>intent_text\<close> is what the template literal \<^verbatim>\<open>${intent}\<close> prints for it.
\<close>

datatype form_value = Form_null | Form_string string | Form_file

definition intent_text :: "form_value \<Rightarrow> string" where
  "intent_text v =
     (case v of Form_null \<Rightarrow> ''null'' | Form_string t \<Rightarrow> t | Form_file \<Rightarrow> ''[object File]'')"

text \<open>The truthiness of \<^verbatim>\<open>global.__inspector_open__\<close>.\<close>

definition flag_truthy :: "bool option \<Rightarrow> bool" where
  "flag_truthy f \<longleftrightarrow> f = Some True"

text \<open>A call on the external inspector: recorded, then its outcome.\<close>

definition call_inspector :: "inspector_call \<Rightarrow> server_state \<Rightarrow> server_state" where
  "call_inspector c s = s \<lparr> inspector_calls := inspector_calls s @ [c] \<rparr>"

text \<open>The body of \<^verbatim>\<open>json({ success: true })\<close>.\<close>

datatype action_data = Success bool

text \<open>
  \<^verbatim>\<open>action\<close>, with the state passed through. The parameters are the outcome of
  \<^verbatim>\<open>ensureUndeployed()\<close>, the imported \<^verbatim>\<open>inspector\<close> and the form's
  \<^verbatim>\<open>intent\<close>. The flag is assigned before the inspector is called, as in the source.
\<close>

definition action ::
  "exn option \<Rightarrow> inspector \<Rightarrow> form_value \<Rightarrow> server_state \<Rightarrow> (exn + action_data) \<times> server_state" where
  "action ensureUndeployed insp intent s =
     (case ensureUndeployed of
        Some e \<Rightarrow> (Inl e, s)
      | None \<Rightarrow>
         if intent = Form_string ''inspect'' then
           (if \<not> flag_truthy (inspector_open s) then
              (let s1 = call_inspector Inspector_open (s \<lparr> inspector_open := Some True \<rparr>)
               in case open_outcome insp of
                    Some e \<Rightarrow> (Inl e, s1)
                  | None \<Rightarrow> (Inr (Success True), s1))
            else
              (Inr (Success True), s \<lparr> console := console s @ [''Inspector already running.''] \<rparr>))
         else if intent = Form_string ''stop-inspect'' then
           (if flag_truthy (inspector_open s) then
              (let s1 = call_inspector Inspector_close (s \<lparr> inspector_open := Some False \<rparr>)
               in case close_outcome insp of
                    Some e \<Rightarrow> (Inl e, s1)
                  | None \<Rightarrow> (Inr (Success True), s1))
            else
              (Inr (Success True), s \<lparr> console := console s @ [''Inspector already stopped.''] \<rparr>))
         else (Inl (Error (''Unknown intent: '' @ intent_text intent)), s))"

subsection \<open>Client hints\<close>

text \<open>
  Strings of the cookie header are byte strings, so a character is a \<^typ>\<open>char\<close>.
  \<^verbatim>\<open>String.prototype.split\<close> with a one-character separator (never an empty array),
  \<^verbatim>\<open>trim\<close> (the white space and line terminators below 256: tab, line feed,
  vertical tab, form feed, carriage return, space and no-break space), and
  \<^verbatim>\<open>startsWith\<close>.
\<close>

fun split :: "char \<Rightarrow> string \<Rightarrow> string list" where
  "split sep [] = [[]]"
| "split sep (c # cs) =
     (if c = sep then [] # split sep cs
      else (case split sep cs of [] \<Rightarrow> [[c]] | w # ws \<Rightarrow> (c # w) # ws))"

definition is_white_space :: "char \<Rightarrow> bool" where
  "is_white_space c \<longleftrightarrow> (of_char c :: nat) \<in> {9, 10, 11, 12, 13, 32, 160}"

definition trim :: "string \<Rightarrow> string" where
  "trim s = rev (dropWhile is_white_space (rev (dropWhile is_white_space s)))"

definition startsWith :: "string \<Rightarrow> string \<Rightarrow> bool" where
  "startsWith s p \<longleftrightarrow> take (length p) s = p"

text \<open>An array read \<^verbatim>\<open>xs[i]\<close>: \<^verbatim>\<open>undefined\<close> out of range.\<close>

definition array_get :: "'a list \<Rightarrow> nat \<Rightarrow> 'a option" where
  "array_get xs i = (if i < length xs then Some (xs ! i) else None)"

text \<open>
  \<^verbatim>\<open>clientHints\<close>: for each hint its cookie name, the fallback and
  \<^verbatim>\<open>transform(value: string | null)\<close> (\<^verbatim>\<open>getValueCode\<close> runs in the browser only
  and is left out).
\<close>

record hint =
  cookieName :: string
  fallback :: string
  transform :: "string option \<Rightarrow> string"

definition clientHints :: "hint js_object" where
  "clientHints =
     [(''theme'',
       \<lparr> cookieName = ''KCDShop_CH-prefers-color-scheme'',
         fallback = ''light'',
         transform = (\<lambda>v. if v = Some ''dark'' then ''dark'' else ''light'') \<rparr>),
      (''reducedMotion'',
       \<lparr> cookieName = ''KCDShop_CH-reduced-motion'',
         fallback = ''no-preference'',
         transform = (\<lambda>v. if v = Some ''reduce'' then ''reduce'' else ''no-preference'') \<rparr>)]"

text \<open>
  \<^verbatim>\<open>getCookieValue(cookieString, name)\<close>. The parameter's type is
  \<^verbatim>\<open>keyof typeof clientHints\<close>; for another name \<^verbatim>\<open>clientHints[name]\<close> is read as
  a missing own property, which throws.
\<close>

definition getCookieValue :: "string \<Rightarrow> string \<Rightarrow> exn + string option" where
  "getCookieValue cookieString nm =
     (case map_of clientHints nm of
        None \<Rightarrow> Inl (Error (''Unknown client hint: '' @ nm))
      | Some h \<Rightarrow>
         Inr (case List.find (\<lambda>c. startsWith c (cookieName h @ ''=''))
                     (map trim (split CHR '';'' cookieString)) of
                None \<Rightarrow> None
              | Some c \<Rightarrow> array_get (split CHR ''='' c) 1))"

text \<open>
  The \<^verbatim>\<open>reduce\<close> of \<^verbatim>\<open>getHints\<close> over \<^verbatim>\<open>Object.entries(clientHints)\<close>:
  \<^verbatim>\<open>acc[hintName] = hint.transform(getCookieValue(cookieString, hintName))\<close>; a throw
  of \<^verbatim>\<open>getCookieValue\<close> ends it.
\<close>

fun hints_reduce :: "string \<Rightarrow> (string \<times> hint) list \<Rightarrow> string js_object \<Rightarrow> exn + string js_object" where
  "hints_reduce cookieString [] acc = Inr acc"
| "hints_reduce cookieString ((nm, h) # rest) acc =
     (case getCookieValue cookieString nm of
        Inl e \<Rightarrow> Inl e
      | Inr v \<Rightarrow> hints_reduce cookieString rest (obj_set acc nm (transform h v)))"

text \<open>
  \<^verbatim>\<open>getHints(request?)\<close>. \<open>document_cookie\<close> is \<^verbatim>\<open>document.cookie\<close> where a
  \<^verbatim>\<open>document\<close> exists; \<open>request\<close> is the optional request, given by what
  \<^verbatim>\<open>request.headers.get('Cookie')\<close> returns (\<open>None\<close> for \<^verbatim>\<open>null\<close>).
\<close>

definition cookie_string :: "string option \<Rightarrow> string option option \<Rightarrow> string" where
  "cookie_string document_cookie request =
     (case document_cookie of
        Some c \<Rightarrow> c
      | None \<Rightarrow>
         (case request of
            Some header \<Rightarrow> (case header of Some c \<Rightarrow> c | None \<Rightarrow> [])
          | None \<Rightarrow> []))"

definition getHints :: "string option \<Rightarrow> string option option \<Rightarrow> exn + string js_object" where
  "getHints document_cookie request =
     hints_reduce (cookie_string document_cookie request) (Object_entries clientHints) []"

section \<open>Properties\<close>

subsection \<open>The catalog filter\<close>

lemma findIndex_ge: "findIndex p xs = -1 \<or> 0 \<le> findIndex p xs"
  by (induction xs) (auto simp: Let_def)

lemma findIndex_append_none:
  "\<forall>b\<in>set pre. \<not> p b \<Longrightarrow>
     findIndex p (pre @ xs) = (let r = findIndex p xs in if r < 0 then -1 else r + int (length pre))"
  using findIndex_ge[of p xs] by (induction pre) (auto simp: Let_def)

lemma findIndex_append_some:
  "b \<in> set pre \<Longrightarrow> p b \<Longrightarrow> 0 \<le> findIndex p (pre @ xs) \<and> findIndex p (pre @ xs) < int (length pre)"
  by (induction pre) (auto simp: Let_def)

lemma first_of_its_name_iff:
  "first_of_its_name a (length pre) (pre @ a # xs) \<longleftrightarrow> name a \<notin> name ` set pre"
proof (cases "\<exists>b\<in>set pre. name a = name b")
  case True
  then show ?thesis
    using findIndex_append_some[of _ pre "\<lambda>b. name a = name b" "a # xs"]
    by (force simp: first_of_its_name_def)
next
  case False
  then show ?thesis
    using findIndex_append_none[of pre "\<lambda>b. name a = name b" "a # xs"]
    by (auto simp: first_of_its_name_def)
qed

lemma filter_from_step:
  "filter_from (length pre) first_of_its_name (pre @ a # xs) (a # xs) =
     (if name a \<in> name ` set pre then [] else [a])
     @ filter_from (length (pre @ [a])) first_of_its_name ((pre @ [a]) @ xs) xs"
  using first_of_its_name_iff[of a pre xs] by simp

lemma filter_from_subseq: "subseq (filter_from i p ar xs) xs"
  by (induction xs arbitrary: i) auto

lemma filter_from_names:
  "name ` set (filter_from (length pre) first_of_its_name (pre @ xs) xs)
     = name ` set xs - name ` set pre"
proof (induction xs arbitrary: pre)
  case Nil
  then show ?case by simp
next
  case (Cons a xs)
  show ?case
    unfolding filter_from_step using Cons.IH[of "pre @ [a]"] by auto
qed

lemma filter_from_distinct:
  "distinct (map name (filter_from (length pre) first_of_its_name (pre @ xs) xs))"
proof (induction xs arbitrary: pre)
  case Nil
  then show ?case by simp
next
  case (Cons a xs)
  show ?case
    unfolding filter_from_step
    using Cons.IH[of "pre @ [a]"] filter_from_names[of "pre @ [a]" xs] by auto
qed

lemma filter_from_find:
  "List.find (\<lambda>a. name a = n) (filter_from (length pre) first_of_its_name (pre @ xs) xs)
     = (if n \<in> name ` set pre then None else List.find (\<lambda>a. name a = n) xs)"
proof (induction xs arbitrary: pre)
  case Nil
  then show ?case by simp
next
  case (Cons a xs)
  show ?case
    unfolding filter_from_step using Cons.IH[of "pre @ [a]"] by auto
qed

lemma filter_from_id:
  "distinct (map name (pre @ xs)) \<Longrightarrow>
     filter_from (length pre) first_of_its_name (pre @ xs) xs = xs"
proof (induction xs arbitrary: pre)
  case Nil
  then show ?case by simp
next
  case (Cons a xs)
  from Cons.prems have "distinct (map name ((pre @ [a]) @ xs))" and "name a \<notin> name ` set pre"
    by auto
  then show ?case
    unfolding filter_from_step using Cons.IH[of "pre @ [a]"] by simp
qed

lemma loader_apps_subseq: "subseq (loader_apps xs) xs"
  by (simp add: loader_apps_def Array_filter_def filter_from_subseq)

lemma loader_apps_names: "name ` set (loader_apps xs) = name ` set xs"
  using filter_from_names[of "[]" xs] by (simp add: loader_apps_def Array_filter_def)

lemma loader_apps_distinct: "distinct (map name (loader_apps xs))"
  using filter_from_distinct[of "[]" xs] by (simp add: loader_apps_def Array_filter_def)

lemma loader_apps_find:
  "List.find (\<lambda>a. name a = n) (loader_apps xs) = List.find (\<lambda>a. name a = n) xs"
  using filter_from_find[of n "[]" xs] by (simp add: loader_apps_def Array_filter_def)

lemma loader_apps_id: "distinct (map name xs) \<Longrightarrow> loader_apps xs = xs"
  using filter_from_id[of "[]" xs] by (simp add: loader_apps_def Array_filter_def)

text \<open>
  C3. For every app catalog, also one that holds several records of one name, the list
  of apps that the loader returns contains each name of the catalog exactly once: the
  names of the returned apps are pairwise distinct and are the names of the catalog.
\<close>

theorem loader_apps_each_name_once:
  "\<exists>d. fst (loader None (Inr catalog) s) = Inr d
       \<and> distinct (map name (apps d))
       \<and> set (map name (apps d)) = set (map name catalog)"
  using loader_apps_names[of catalog]
  by (simp add: loader_def loader_apps_distinct)

lemma filter_from_snoc_array:
  "filter_from (length pre) first_of_its_name ((pre @ xs) @ [a]) xs
     = filter_from (length pre) first_of_its_name (pre @ xs) xs"
proof (induction xs arbitrary: pre)
  case Nil
  then show ?case by simp
next
  case (Cons x xs)
  have "first_of_its_name x (length pre) (pre @ x # (xs @ [a]))
      = first_of_its_name x (length pre) (pre @ x # xs)"
    by (simp only: first_of_its_name_iff)
  then show ?case
    using Cons.IH[of "pre @ [x]"] by simp
qed

lemma filter_from_append:
  "filter_from i p ar (xs @ ys) = filter_from i p ar xs @ filter_from (i + length xs) p ar ys"
  by (induction xs arbitrary: i) auto

lemma loader_apps_snoc:
  "loader_apps (catalog @ [a])
     = (if name a \<in> name ` set catalog then loader_apps catalog else loader_apps catalog @ [a])"
proof -
  have "loader_apps (catalog @ [a])
      = filter_from 0 first_of_its_name (catalog @ [a]) catalog
        @ filter_from (length catalog) first_of_its_name (catalog @ [a]) [a]"
    by (simp add: loader_apps_def Array_filter_def filter_from_append)
  moreover have "filter_from 0 first_of_its_name (catalog @ [a]) catalog = loader_apps catalog"
    using filter_from_snoc_array[of "[]" catalog a] by (simp add: loader_apps_def Array_filter_def)
  moreover have "filter_from (length catalog) first_of_its_name (catalog @ [a]) [a]
      = (if name a \<in> name ` set catalog then [] else [a])"
    using first_of_its_name_iff[of a catalog "[]"] by simp
  ultimately show ?thesis by simp
qed

text \<open>
  C9. The filter keeps a subsequence of the catalog (the relative order of the kept
  records is the catalog's) in which no name occurs twice; the record it keeps for a
  name is the first record of that name in the catalog; a record appended to the catalog
  is dropped when its name already occurs in the catalog and is kept, last, otherwise;
  applying the filter twice is applying it once, and a catalog whose names are pairwise
  distinct is returned unchanged.
\<close>

theorem loader_apps_keeps_first:
  "subseq (loader_apps catalog) catalog
   \<and> distinct (map name (loader_apps catalog))
   \<and> (\<forall>n. List.find (\<lambda>a. name a = n) (loader_apps catalog)
           = List.find (\<lambda>a. name a = n) catalog)
   \<and> loader_apps (catalog @ [a])
       = (if name a \<in> name ` set catalog then loader_apps catalog
          else loader_apps catalog @ [a])
   \<and> loader_apps (loader_apps catalog) = loader_apps catalog
   \<and> (distinct (map name catalog) \<longrightarrow> loader_apps catalog = catalog)"
  using loader_apps_id[of "loader_apps catalog"]
  by (simp add: loader_apps_subseq loader_apps_find loader_apps_distinct loader_apps_id
      loader_apps_snoc)

theorem loader_apps_keeps_first_witness:
  "loader_apps
     [\<lparr> name = ''a'', displayName = ''A'', fullPath = ''/a'' \<rparr>,
      \<lparr> name = ''b'', displayName = ''B'', fullPath = ''/b'' \<rparr>]
   = [\<lparr> name = ''a'', displayName = ''A'', fullPath = ''/a'' \<rparr>,
      \<lparr> name = ''b'', displayName = ''B'', fullPath = ''/b'' \<rparr>]
   \<and> loader_apps
     [\<lparr> name = ''a'', displayName = ''A'', fullPath = ''/a'' \<rparr>,
      \<lparr> name = ''b'', displayName = ''B'', fullPath = ''/b'' \<rparr>,
      \<lparr> name = ''a'', displayName = ''A again'', fullPath = ''/a2'' \<rparr>]
   = [\<lparr> name = ''a'', displayName = ''A'', fullPath = ''/a'' \<rparr>,
      \<lparr> name = ''b'', displayName = ''B'', fullPath = ''/b'' \<rparr>]"
proof -
  let ?c = "[\<lparr> name = ''a'', displayName = ''A'', fullPath = ''/a'' \<rparr>,
             \<lparr> name = ''b'', displayName = ''B'', fullPath = ''/b'' \<rparr>]"
  let ?a2 = "\<lparr> name = ''a'', displayName = ''A again'', fullPath = ''/a2'' \<rparr>"
  have h: "distinct (map name ?c)" by simp
  note t = loader_apps_keeps_first[of ?c ?a2]
  from t have i: "distinct (map name ?c) \<longrightarrow> loader_apps ?c = ?c"
    by (elim conjE)
  from t have s: "loader_apps (?c @ [?a2])
       = (if name ?a2 \<in> name ` set ?c then loader_apps ?c else loader_apps ?c @ [?a2])"
    by (elim conjE)
  from i h have c: "loader_apps ?c = ?c" by (rule mp)
  have m: "name ?a2 \<in> name ` set ?c" by simp
  from s m have "loader_apps (?c @ [?a2]) = loader_apps ?c" by (simp only: if_True)
  with c have "loader_apps (?c @ [?a2]) = ?c" by (simp only:)
  then have "loader_apps
     [\<lparr> name = ''a'', displayName = ''A'', fullPath = ''/a'' \<rparr>,
      \<lparr> name = ''b'', displayName = ''B'', fullPath = ''/b'' \<rparr>, ?a2] = ?c"
    by (simp only: append.simps)
  with c show ?thesis by (intro conjI)
qed

subsection \<open>Objects and the loader's loops\<close>

lemma update_fresh: "k \<notin> fst ` set al \<Longrightarrow> AList.update k v al = al @ [(k, v)]"
  by (induction al) auto

lemma obj_set_distinct: "distinct (map fst obj) \<Longrightarrow> distinct (map fst (obj_set obj k v))"
  by (simp add: obj_set_def distinct_update)

lemma dev_loop_distinct: "distinct (map fst acc) \<Longrightarrow> distinct (map fst (dev_loop es acc))"
  by (induction es acc rule: dev_loop.induct) (simp_all add: obj_set_distinct)

lemma test_loop_distinct: "distinct (map fst acc) \<Longrightarrow> distinct (map fst (test_loop es acc))"
  by (induction es acc rule: test_loop.induct) (simp_all add: obj_set_distinct)

lemma set_Object_entries: "set (Object_entries obj) = set obj"
  by (auto simp: Object_entries_def)

lemma distinct_Object_entries: "distinct (Object_entries obj) = distinct obj"
proof -
  have "distinct (filter (\<lambda>kv. is_array_index (fst kv)) obj @ filter (\<lambda>kv. \<not> is_array_index (fst kv)) obj) = distinct obj"
    by (induction obj) auto
  then show ?thesis by (auto simp: Object_entries_def)
qed

lemma distinct_keys_Object_entries:
  "distinct (map fst (Object_entries obj)) = distinct (map fst obj)"
  by (simp add: distinct_map set_Object_entries distinct_Object_entries)

lemma insort_key_map:
  "insort_key f (h x) (map h xs) = map h (insort_key (\<lambda>y. f (h y)) x xs)"
  by (induction xs) auto

lemma sort_key_map: "sort_key f (map h xs) = map h (sort_key (\<lambda>y. f (h y)) xs)"
  by (induction xs) (simp_all add: insort_key_map)

lemma Object_entries_map_values:
  "Object_entries (map (\<lambda>kv. (fst kv, g (snd kv))) obj)
     = map (\<lambda>kv. (fst kv, g (snd kv))) (Object_entries obj)"
  by (simp add: Object_entries_def filter_map comp_def sort_key_map)

lemma Object_entries_idem: "Object_entries (Object_entries obj) = Object_entries obj"
proof -
  let ?I = "\<lambda>kv::string \<times> 'a. is_array_index (fst kv)"
  let ?f = "\<lambda>kv::string \<times> 'a. digits_value (fst kv)"
  have a: "filter ?I (Object_entries obj) = sort_key ?f (filter ?I obj)"
    by (simp add: Object_entries_def filter_sort)
  have b: "filter (\<lambda>kv. \<not> ?I kv) (Object_entries obj) = filter (\<lambda>kv. \<not> ?I kv) obj"
    by (simp add: Object_entries_def filter_sort)
  have c: "sort_key ?f (sort_key ?f (filter ?I obj)) = sort_key ?f (filter ?I obj)"
    by (rule sort_key_id_if_sorted) simp
  show ?thesis
    unfolding Object_entries_def[of "Object_entries obj"] a b c
    by (simp add: Object_entries_def)
qed

lemma Object_entries_plain:
  "\<forall>k\<in>set (map fst obj). \<not> is_array_index k \<Longrightarrow> Object_entries obj = obj"
  by (simp add: Object_entries_def filter_empty_conv filter_id_conv)

lemma keys_json_object: "map fst (json_object obj) = map fst (Object_entries obj)"
  by (simp add: json_object_def comp_def)

lemma Object_entries_json_object: "Object_entries (json_object obj) = json_object obj"
  by (simp add: json_object_def Object_entries_map_values Object_entries_idem)

lemma dev_loop_fresh:
  "distinct (map fst es) \<Longrightarrow> fst ` set acc \<inter> fst ` set es = {} \<Longrightarrow>
     dev_loop es acc
       = acc @ map (\<lambda>kv. (fst kv, dev_entry (snd kv))) (filter (\<lambda>kv. fst kv \<noteq> ''__proto__'') es)"
proof (induction es acc rule: dev_loop.induct)
  case (1 processes)
  then show ?case by simp
next
  case (2 nm e rest processes)
  have d: "distinct (map fst rest)" using 2 by simp
  have nm: "nm \<notin> fst ` set processes" "nm \<notin> fst ` set rest" using "2.prems" by auto
  have disj: "fst ` set (obj_set processes nm (dev_entry e)) \<inter> fst ` set rest = {}"
    using "2.prems" nm by (auto simp: obj_set_def update_fresh)
  show ?case
    using "2.IH"[OF d disj] nm by (simp add: obj_set_def update_fresh)
qed

lemma test_loop_fresh:
  "distinct (map fst es) \<Longrightarrow> fst ` set acc \<inter> fst ` set es = {} \<Longrightarrow>
     test_loop es acc
       = acc @ map (\<lambda>kv. (fst kv, test_entry (snd kv))) (filter (\<lambda>kv. fst kv \<noteq> ''__proto__'') es)"
proof (induction es acc rule: test_loop.induct)
  case (1 tests)
  then show ?case by simp
next
  case (2 nm e rest tests)
  have d: "distinct (map fst rest)" using 2 by simp
  have nm: "nm \<notin> fst ` set tests" "nm \<notin> fst ` set rest" using "2.prems" by auto
  have disj: "fst ` set (obj_set tests nm (test_entry e)) \<inter> fst ` set rest = {}"
    using "2.prems" nm by (auto simp: obj_set_def update_fresh)
  show ?case
    using "2.IH"[OF d disj] nm by (simp add: obj_set_def update_fresh)
qed

lemma not_index_port: "\<not> is_array_index ''port''" "\<not> is_array_index ''pid''"
  "\<not> is_array_index ''color''" "\<not> is_array_index ''exitCode''"
  by (simp_all add: is_array_index_def is_digit_def)

lemma Object_entries_dev_entry: "Object_entries (dev_entry e) = dev_entry e"
  by (simp add: Object_entries_def dev_entry_def not_index_port)

lemma Object_entries_test_entry: "Object_entries (test_entry e) = test_entry e"
  by (simp add: Object_entries_def test_entry_def not_index_port)

lemma obj_get_json_dev_entry:
  "obj_get (json_fields (dev_entry e)) ''port'' = JNumber (port e)"
  "obj_get (json_fields (dev_entry e)) ''pid'' = pid_value (pid (dev_process.process e))"
  "obj_get (json_fields (dev_entry e)) ''color'' = JString (color e)"
  unfolding json_fields_def Object_entries_dev_entry
  by (simp_all add: dev_entry_def obj_get_def)

lemma obj_get_json_test_entry:
  "obj_get (json_fields (test_entry e)) ''pid''
     = (case test_process.process e of None \<Rightarrow> JUndefined | Some p \<Rightarrow> pid_value (pid p))"
  "obj_get (json_fields (test_entry e)) ''exitCode'' = exitCode e"
  unfolding json_fields_def Object_entries_test_entry
  by (simp_all add: test_entry_def obj_get_def)


subsection \<open>The status listings\<close>

lemma Map_entries_distinct: "distinct (map fst (Map_entries m))"
  by (simp add: Map_entries_def)

lemma keys_process_items: "map fst (process_items d) = map fst (Object_entries (processes d))"
  by (simp add: process_items_def comp_def)

lemma keys_test_process_items:
  "map fst (test_process_items d) = map fst (Object_entries (loader_data.testProcesses d))"
  by (simp add: test_process_items_def comp_def)

lemma processes_useLoaderData [simp]:
  "processes (useLoaderData d) = json_object (processes d)"
  "loader_data.testProcesses (useLoaderData d) = json_object (loader_data.testProcesses d)"
  "apps (useLoaderData d) = apps d"
  by (simp_all add: useLoaderData_def)

lemma loader_returns:
  "loader None (Inr catalog) s =
     (Inr \<lparr> apps = loader_apps catalog,
            processes = dev_loop (Map_entries (devProcesses s)) [],
            testProcesses = test_loop (Map_entries (server_state.testProcesses s)) [],
            inspectorRunning = inspector_open s \<rparr>, s)"
  by (simp add: loader_def)

text \<open>
  C1. Each registry holds at most one entry for an app name, and every listing produced
  from a registry holds each app name at most once: the keys of the loader's
  \<^verbatim>\<open>processes\<close> and \<^verbatim>\<open>testProcesses\<close> objects and of the lists that the page
  renders from them are pairwise distinct. The loops give distinct keys for any list of
  entries, also one that repeats a name.
\<close>

theorem one_entry_per_app_name:
  "distinct (map fst (Map_entries (devProcesses s)))
   \<and> distinct (map fst (Map_entries (server_state.testProcesses s)))
   \<and> (\<exists>d. fst (loader None (Inr catalog) s) = Inr d
          \<and> distinct (map fst (processes d))
          \<and> distinct (map fst (loader_data.testProcesses d))
          \<and> distinct (map fst (process_items (useLoaderData d)))
          \<and> distinct (map fst (test_process_items (useLoaderData d))))
   \<and> distinct (map fst (dev_loop dev_entries []))
   \<and> distinct (map fst (test_loop test_entries []))"
  by (simp add: loader_returns Map_entries_distinct dev_loop_distinct test_loop_distinct
      keys_process_items keys_test_process_items Object_entries_json_object keys_json_object
      distinct_keys_Object_entries)

text \<open>
  C6. A status query changes nothing: whatever \<^verbatim>\<open>ensureUndeployed\<close> and
  \<^verbatim>\<open>getApps\<close> do, the state after the loader is the state before it, so both
  registries hold the same entries with the same field values and the allocator's
  used ports are the same.
\<close>

theorem loader_reads_only:
  "snd (loader ensureUndeployed getApps s) = s
   \<and> Map_entries (devProcesses (snd (loader ensureUndeployed getApps s)))
       = Map_entries (devProcesses s)
   \<and> Map_entries (server_state.testProcesses (snd (loader ensureUndeployed getApps s)))
       = Map_entries (server_state.testProcesses s)
   \<and> usedPorts (allocator (snd (loader ensureUndeployed getApps s))) = usedPorts (allocator s)"
proof -
  have "snd (loader ensureUndeployed getApps s) = s"
    by (simp add: loader_def split: option.split sum.split)
  then show ?thesis by simp
qed

lemma process_items_loader:
  assumes "distinct (map fst es)" and "processes d = dev_loop es []"
  shows "process_items (useLoaderData d)
    = map (\<lambda>kv. (fst kv, JNumber (port (snd kv)), pid_value (pid (dev_process.process (snd kv))),
                  JString (color (snd kv))))
        (Object_entries (filter (\<lambda>kv. fst kv \<noteq> ''__proto__'') es))"
  using dev_loop_fresh[OF assms(1), of "[]"] assms(2)
  by (simp add: process_items_def Object_entries_json_object)
     (simp add: json_object_def Object_entries_map_values comp_def obj_get_json_dev_entry)

lemma test_process_items_loader:
  assumes "distinct (map fst es)" and "loader_data.testProcesses d = test_loop es []"
  shows "test_process_items (useLoaderData d)
    = map (\<lambda>kv. (fst kv,
                  (case test_process.process (snd kv) of None \<Rightarrow> JUndefined
                   | Some p \<Rightarrow> pid_value (pid p)),
                  exitCode (snd kv)))
        (Object_entries (filter (\<lambda>kv. fst kv \<noteq> ''__proto__'') es))"
  using test_loop_fresh[OF assms(1), of "[]"] assms(2)
  by (simp add: test_process_items_def Object_entries_json_object)
     (simp add: json_object_def Object_entries_map_values comp_def obj_get_json_test_entry)

lemma Object_entries_plain_names:
  assumes "\<forall>k\<in>set (map fst es). \<not> is_array_index k \<and> k \<noteq> ''__proto__''"
  shows "Object_entries (filter (\<lambda>kv. fst kv \<noteq> ''__proto__'') es) = es"
proof -
  have "filter (\<lambda>kv. fst kv \<noteq> ''__proto__'') es = es"
    using assms by (simp add: filter_id_conv)
  moreover have "Object_entries es = es"
    using assms by (intro Object_entries_plain) simp
  ultimately show ?thesis by simp
qed

text \<open>
  C7 (amended). When no app name of the dev registry is an array index or
  \<^verbatim>\<open>__proto__\<close>, the list that the page renders from it enumerates the registry's
  entries in insertion order, each with the values of its handle; likewise the test
  registry and its list, each registry under its own condition only. For every state
  and whatever \<^verbatim>\<open>ensureUndeployed\<close> and \<^verbatim>\<open>getApps\<close> do, a second query on the
  state that the first one leaves returns what the first one returned. (For any names
  the order is that of \<open>process_items_loader\<close>: array indices first in ascending
  order, \<^verbatim>\<open>__proto__\<close> left out.)
\<close>

theorem listing_in_insertion_order:
  "loader ensureUndeployed getApps (snd (loader ensureUndeployed getApps s))
     = loader ensureUndeployed getApps s
   \<and> (\<exists>d. fst (loader None (Inr catalog) s) = Inr d
        \<and> fst (loader None (Inr catalog) (snd (loader None (Inr catalog) s))) = Inr d
        \<and> ((\<forall>k\<in>set (map fst (Map_entries (devProcesses s))).
               \<not> is_array_index k \<and> k \<noteq> ''__proto__'')
            \<longrightarrow> process_items (useLoaderData d)
                = map (\<lambda>kv. (fst kv, JNumber (port (snd kv)),
                              pid_value (pid (dev_process.process (snd kv))),
                              JString (color (snd kv))))
                    (Map_entries (devProcesses s)))
        \<and> ((\<forall>k\<in>set (map fst (Map_entries (server_state.testProcesses s))).
               \<not> is_array_index k \<and> k \<noteq> ''__proto__'')
            \<longrightarrow> test_process_items (useLoaderData d)
                = map (\<lambda>kv. (fst kv,
                              (case test_process.process (snd kv) of None \<Rightarrow> JUndefined
                               | Some p \<Rightarrow> pid_value (pid p)),
                              exitCode (snd kv)))
                    (Map_entries (server_state.testProcesses s))))"
proof -
  let ?d = "\<lparr> apps = loader_apps catalog,
              processes = dev_loop (Map_entries (devProcesses s)) [],
              testProcesses = test_loop (Map_entries (server_state.testProcesses s)) [],
              inspectorRunning = inspector_open s \<rparr>"
  have same: "snd (loader ensureUndeployed getApps s) = s"
    by (simp add: loader_def split: option.split sum.split)
  have r: "loader None (Inr catalog) s = (Inr ?d, s)" by (rule loader_returns)
  have p: "process_items (useLoaderData ?d)
         = map (\<lambda>kv. (fst kv, JNumber (port (snd kv)),
                       pid_value (pid (dev_process.process (snd kv))), JString (color (snd kv))))
             (Map_entries (devProcesses s))"
    if "\<forall>k\<in>set (map fst (Map_entries (devProcesses s))).
          \<not> is_array_index k \<and> k \<noteq> ''__proto__''"
    using process_items_loader[OF Map_entries_distinct, of ?d "devProcesses s"]
    by (simp add: Object_entries_plain_names[OF that])
  have t: "test_process_items (useLoaderData ?d)
         = map (\<lambda>kv. (fst kv,
                       (case test_process.process (snd kv) of None \<Rightarrow> JUndefined
                        | Some p \<Rightarrow> pid_value (pid p)),
                       exitCode (snd kv)))
             (Map_entries (server_state.testProcesses s))"
    if "\<forall>k\<in>set (map fst (Map_entries (server_state.testProcesses s))).
          \<not> is_array_index k \<and> k \<noteq> ''__proto__''"
    using test_process_items_loader[OF Map_entries_distinct, of ?d "server_state.testProcesses s"]
    by (simp add: Object_entries_plain_names[OF that])
  have ex: "\<exists>d. fst (loader None (Inr catalog) s) = Inr d
        \<and> fst (loader None (Inr catalog) (snd (loader None (Inr catalog) s))) = Inr d
        \<and> ((\<forall>k\<in>set (map fst (Map_entries (devProcesses s))).
               \<not> is_array_index k \<and> k \<noteq> ''__proto__'')
            \<longrightarrow> process_items (useLoaderData d)
                = map (\<lambda>kv. (fst kv, JNumber (port (snd kv)),
                              pid_value (pid (dev_process.process (snd kv))),
                              JString (color (snd kv))))
                    (Map_entries (devProcesses s)))
        \<and> ((\<forall>k\<in>set (map fst (Map_entries (server_state.testProcesses s))).
               \<not> is_array_index k \<and> k \<noteq> ''__proto__'')
            \<longrightarrow> test_process_items (useLoaderData d)
                = map (\<lambda>kv. (fst kv,
                              (case test_process.process (snd kv) of None \<Rightarrow> JUndefined
                               | Some p \<Rightarrow> pid_value (pid p)),
                              exitCode (snd kv)))
                    (Map_entries (server_state.testProcesses s)))"
    using p t by (intro exI[of _ ?d]) (simp add: r)
  show ?thesis
    using ex by (simp only: same simp_thms)
qed

theorem listing_in_insertion_order_witness:
  "\<exists>d. fst (loader None (Inr [])
              \<lparr> devProcesses =
                  Map_set (Map_set DAList.empty
                    ''b'' \<lparr> port = 3000, process = \<lparr> pid = Some 41 \<rparr>, color = ''blue'' \<rparr>)
                    ''a'' \<lparr> port = 3001, process = \<lparr> pid = None \<rparr>, color = ''red'' \<rparr>,
                testProcesses =
                  Map_set DAList.empty
                    ''b'' \<lparr> process = Some \<lparr> pid = Some 77 \<rparr>, exitCode = JNull \<rparr>,
                inspector_open = None, inspector_calls = [], console = [],
                allocator = \<lparr> usedPorts = {3000, 3001}, port_range = (3000, 3002) \<rparr> \<rparr>) = Inr d
     \<and> process_items (useLoaderData d)
         = [(''b'', JNumber 3000, JNumber 41, JString ''blue''),
            (''a'', JNumber 3001, JUndefined, JString ''red'')]
     \<and> test_process_items (useLoaderData d) = [(''b'', JNumber 77, JNull)]"
proof -
  let ?dev = "Map_set (Map_set DAList.empty
                    ''b'' \<lparr> port = 3000, process = \<lparr> pid = Some 41 \<rparr>, color = ''blue'' \<rparr>)
                    ''a'' \<lparr> port = 3001, process = \<lparr> pid = None \<rparr>, color = ''red'' \<rparr>"
  let ?test = "Map_set DAList.empty
                    ''b'' \<lparr> process = Some \<lparr> pid = Some 77 \<rparr>, exitCode = JNull \<rparr>"
  let ?s = "\<lparr> devProcesses = ?dev, testProcesses = ?test,
                inspector_open = None, inspector_calls = [], console = [],
                allocator = \<lparr> usedPorts = {3000, 3001}, port_range = (3000, 3002) \<rparr> \<rparr>"
  have dev: "Map_entries ?dev
      = [(''b'', \<lparr> port = 3000, process = \<lparr> pid = Some 41 \<rparr>, color = ''blue'' \<rparr>),
         (''a'', \<lparr> port = 3001, process = \<lparr> pid = None \<rparr>, color = ''red'' \<rparr>)]"
    by (simp add: Map_entries_def Map_set_def DAList.update.rep_eq DAList.empty.rep_eq)
  have test: "Map_entries ?test
      = [(''b'', \<lparr> process = Some \<lparr> pid = Some 77 \<rparr>, exitCode = JNull \<rparr>)]"
    by (simp add: Map_entries_def Map_set_def DAList.update.rep_eq DAList.empty.rep_eq)
  have h1: "\<forall>k\<in>set (map fst (Map_entries (devProcesses ?s))).
             \<not> is_array_index k \<and> k \<noteq> ''__proto__''"
    by (simp add: dev is_array_index_def is_digit_def)
  have h2: "\<forall>k\<in>set (map fst (Map_entries (server_state.testProcesses ?s))).
             \<not> is_array_index k \<and> k \<noteq> ''__proto__''"
    by (simp add: test is_array_index_def is_digit_def)
  from listing_in_insertion_order[of None "Inr []" ?s "[]"] h1 h2
  obtain d where "fst (loader None (Inr []) ?s) = Inr d"
    and "process_items (useLoaderData d)
         = map (\<lambda>kv. (fst kv, JNumber (port (snd kv)),
                       pid_value (pid (dev_process.process (snd kv))), JString (color (snd kv))))
             (Map_entries (devProcesses ?s))"
    and "test_process_items (useLoaderData d)
         = map (\<lambda>kv. (fst kv,
                       (case test_process.process (snd kv) of None \<Rightarrow> JUndefined
                        | Some p \<Rightarrow> pid_value (pid p)),
                       exitCode (snd kv)))
             (Map_entries (server_state.testProcesses ?s))"
    by blast
  then show ?thesis
    by (intro exI[of _ d]) (simp add: dev test pid_value_def)
qed

theorem listing_order_counterexample:
  "\<exists>d. fst (loader None (Inr [])
              \<lparr> devProcesses =
                  Map_set (Map_set DAList.empty
                    ''b'' \<lparr> port = 3000, process = \<lparr> pid = Some 41 \<rparr>, color = ''blue'' \<rparr>)
                    ''1'' \<lparr> port = 3001, process = \<lparr> pid = Some 42 \<rparr>, color = ''red'' \<rparr>,
                testProcesses = DAList.empty,
                inspector_open = None, inspector_calls = [], console = [],
                allocator = \<lparr> usedPorts = {3000, 3001}, port_range = (3000, 3002) \<rparr> \<rparr>) = Inr d
     \<and> map fst (Map_entries
          (Map_set (Map_set DAList.empty
                    ''b'' \<lparr> port = 3000, process = \<lparr> pid = Some 41 \<rparr>, color = ''blue'' \<rparr>)
                    ''1'' \<lparr> port = 3001, process = \<lparr> pid = Some 42 \<rparr>, color = ''red'' \<rparr>))
         = [''b'', ''1'']
     \<and> process_items (useLoaderData d)
         = [(''1'', JNumber 3001, JNumber 42, JString ''red''),
            (''b'', JNumber 3000, JNumber 41, JString ''blue'')]"
proof -
  let ?dev = "Map_set (Map_set DAList.empty
                    ''b'' \<lparr> port = 3000, process = \<lparr> pid = Some 41 \<rparr>, color = ''blue'' \<rparr>)
                    ''1'' \<lparr> port = 3001, process = \<lparr> pid = Some 42 \<rparr>, color = ''red'' \<rparr>"
  have dev: "Map_entries ?dev
      = [(''b'', \<lparr> port = 3000, process = \<lparr> pid = Some 41 \<rparr>, color = ''blue'' \<rparr>),
         (''1'', \<lparr> port = 3001, process = \<lparr> pid = Some 42 \<rparr>, color = ''red'' \<rparr>)]"
    by (simp add: Map_entries_def Map_set_def DAList.update.rep_eq DAList.empty.rep_eq)
  let ?s = "\<lparr> devProcesses = ?dev, testProcesses = DAList.empty,
                inspector_open = None, inspector_calls = [], console = [],
                allocator = \<lparr> usedPorts = {3000, 3001}, port_range = (3000, 3002) \<rparr> \<rparr>"
  let ?d = "\<lparr> apps = loader_apps [],
              processes = dev_loop (Map_entries (devProcesses ?s)) [],
              testProcesses = test_loop (Map_entries (server_state.testProcesses ?s)) [],
              inspectorRunning = inspector_open ?s \<rparr>"
  have r: "fst (loader None (Inr []) ?s) = Inr ?d"
    by (simp add: loader_returns)
  have "process_items (useLoaderData ?d)
      = map (\<lambda>kv. (fst kv, JNumber (port (snd kv)),
                    pid_value (pid (dev_process.process (snd kv))), JString (color (snd kv))))
          (Object_entries (filter (\<lambda>kv. fst kv \<noteq> ''__proto__'') (Map_entries ?dev)))"
    by (rule process_items_loader[OF Map_entries_distinct]) simp
  then have p: "process_items (useLoaderData ?d)
         = [(''1'', JNumber 3001, JNumber 42, JString ''red''),
            (''b'', JNumber 3000, JNumber 41, JString ''blue'')]"
    unfolding dev
    by (simp add: Object_entries_def is_array_index_def is_digit_def digits_value_def
        pid_value_def)
  show ?thesis
    by (rule exI[of _ ?d]) (simp only: r p dev, simp)
qed

lemma fields_dev_entry: "map fst (dev_entry e) = [''port'', ''pid'', ''color'']"
  by (simp add: dev_entry_def)

lemma fields_test_entry: "map fst (test_entry e) = [''pid'', ''exitCode'']"
  by (simp add: test_entry_def)

lemma dev_loop_Map_entries:
  "dev_loop (Map_entries m) []
     = map (\<lambda>kv. (fst kv, dev_entry (snd kv)))
         (filter (\<lambda>kv. fst kv \<noteq> ''__proto__'') (Map_entries m))"
  using dev_loop_fresh[OF Map_entries_distinct, of "[]" m] by simp

lemma test_loop_Map_entries:
  "test_loop (Map_entries m) []
     = map (\<lambda>kv. (fst kv, test_entry (snd kv)))
         (filter (\<lambda>kv. fst kv \<noteq> ''__proto__'') (Map_entries m))"
  using test_loop_fresh[OF Map_entries_distinct, of "[]" m] by simp

text \<open>
  C4 (amended). Each entry of the loader's dev-server listing is keyed by the name of
  an app of the dev registry and carries exactly the fields \<open>port\<close>, \<open>pid\<close>, \<open>color\<close>;
  each entry of the test listing is keyed by the name of an app of the test registry
  and carries exactly \<open>pid\<close>, \<open>exitCode\<close>. There is no \<open>status\<close> field and the app
  name is the key, not a field.
\<close>

theorem listing_entry_fields:
  "\<exists>d. fst (loader None (Inr catalog) s) = Inr d
     \<and> (\<forall>kv\<in>set (processes d).
           fst kv \<in> set (map fst (Map_entries (devProcesses s)))
           \<and> map fst (snd kv) = [''port'', ''pid'', ''color''])
     \<and> (\<forall>kv\<in>set (loader_data.testProcesses d).
           fst kv \<in> set (map fst (Map_entries (server_state.testProcesses s)))
           \<and> map fst (snd kv) = [''pid'', ''exitCode''])"
  by (auto simp: loader_returns dev_loop_Map_entries test_loop_Map_entries
      fields_dev_entry fields_test_entry)

theorem listing_entry_fields_witness:
  "\<exists>d. fst (loader None (Inr [])
              \<lparr> devProcesses =
                  Map_set DAList.empty
                    ''a'' \<lparr> port = 3000, process = \<lparr> pid = Some 41 \<rparr>, color = ''blue'' \<rparr>,
                testProcesses =
                  Map_set DAList.empty
                    ''a'' \<lparr> process = Some \<lparr> pid = Some 77 \<rparr>, exitCode = JNumber 0 \<rparr>,
                inspector_open = None, inspector_calls = [], console = [],
                allocator = \<lparr> usedPorts = {3000}, port_range = (3000, 3002) \<rparr> \<rparr>) = Inr d
     \<and> map fst (processes d) = [''a'']
     \<and> list_all (\<lambda>kv. map fst (snd kv) = [''port'', ''pid'', ''color'']) (processes d)
     \<and> map fst (loader_data.testProcesses d) = [''a'']
     \<and> list_all (\<lambda>kv. map fst (snd kv) = [''pid'', ''exitCode''])
          (loader_data.testProcesses d)"
proof -
  let ?dev = "Map_set DAList.empty
                ''a'' \<lparr> port = 3000, process = \<lparr> pid = Some 41 \<rparr>, color = ''blue'' \<rparr>"
  let ?test = "Map_set DAList.empty
                ''a'' \<lparr> process = Some \<lparr> pid = Some 77 \<rparr>, exitCode = JNumber 0 \<rparr>"
  let ?s = "\<lparr> devProcesses = ?dev, testProcesses = ?test,
              inspector_open = None, inspector_calls = [], console = [],
              allocator = \<lparr> usedPorts = {3000}, port_range = (3000, 3002) \<rparr> \<rparr>"
  have dev: "Map_entries ?dev
      = [(''a'', \<lparr> port = 3000, process = \<lparr> pid = Some 41 \<rparr>, color = ''blue'' \<rparr>)]"
    by (simp add: Map_entries_def Map_set_def DAList.update.rep_eq DAList.empty.rep_eq)
  have test: "Map_entries ?test
      = [(''a'', \<lparr> process = Some \<lparr> pid = Some 77 \<rparr>, exitCode = JNumber 0 \<rparr>)]"
    by (simp add: Map_entries_def Map_set_def DAList.update.rep_eq DAList.empty.rep_eq)
  from listing_entry_fields[of "[]" ?s]
  obtain d where r: "fst (loader None (Inr []) ?s) = Inr d"
    and p: "\<forall>kv\<in>set (processes d). fst kv \<in> set (map fst (Map_entries (devProcesses ?s)))
           \<and> map fst (snd kv) = [''port'', ''pid'', ''color'']"
    and t: "\<forall>kv\<in>set (loader_data.testProcesses d).
           fst kv \<in> set (map fst (Map_entries (server_state.testProcesses ?s)))
           \<and> map fst (snd kv) = [''pid'', ''exitCode'']"
    by blast
  have k: "map fst (processes d) = [''a'']" "map fst (loader_data.testProcesses d) = [''a'']"
    using r by (auto simp: loader_returns dev test obj_set_def)
  show ?thesis
    using r p t k by (intro exI[of _ d]) (simp add: list_all_iff)
qed

theorem listing_entry_fields_counterexample:
  "\<exists>d. fst (loader None (Inr [])
              \<lparr> devProcesses =
                  Map_set DAList.empty
                    ''a'' \<lparr> port = 3000, process = \<lparr> pid = Some 41 \<rparr>, color = ''blue'' \<rparr>,
                testProcesses = DAList.empty,
                inspector_open = None, inspector_calls = [], console = [],
                allocator = \<lparr> usedPorts = {3000}, port_range = (3000, 3002) \<rparr> \<rparr>) = Inr d
     \<and> processes d
         = [(''a'', [(''port'', JNumber 3000), (''pid'', JNumber 41), (''color'', JString ''blue'')])]
     \<and> (\<exists>kv\<in>set (processes d). ''status'' \<notin> set (map fst (snd kv)))"
proof -
  let ?dev = "Map_set DAList.empty
                ''a'' \<lparr> port = 3000, process = \<lparr> pid = Some 41 \<rparr>, color = ''blue'' \<rparr>"
  have dev: "Map_entries ?dev
      = [(''a'', \<lparr> port = 3000, process = \<lparr> pid = Some 41 \<rparr>, color = ''blue'' \<rparr>)]"
    by (simp add: Map_entries_def Map_set_def DAList.update.rep_eq DAList.empty.rep_eq)
  show ?thesis
    by (simp add: loader_returns dev obj_set_def dev_entry_def pid_value_def)
qed





subsection \<open>The inspector toggle\<close>

lemma action_inspect_open:
  "flag_truthy (inspector_open s) \<Longrightarrow>
     action None insp (Form_string ''inspect'') s
       = (Inr (Success True), s \<lparr> console := console s @ [''Inspector already running.''] \<rparr>)"
  by (simp add: action_def)

lemma action_inspect_closed:
  "\<not> flag_truthy (inspector_open s) \<Longrightarrow>
     snd (action None insp (Form_string ''inspect'') s)
       = call_inspector Inspector_open (s \<lparr> inspector_open := Some True \<rparr>)"
  by (simp add: action_def Let_def split: option.split)

lemma action_stop_closed:
  "\<not> flag_truthy (inspector_open s) \<Longrightarrow>
     action None insp (Form_string ''stop-inspect'') s
       = (Inr (Success True), s \<lparr> console := console s @ [''Inspector already stopped.''] \<rparr>)"
  by (simp add: action_def)

lemma flag_after_inspect:
  "inspector_open (snd (action None insp (Form_string ''inspect'') s)) = Some True"
  by (cases "flag_truthy (inspector_open s)")
     (simp_all add: action_inspect_open action_inspect_closed call_inspector_def flag_truthy_def)

text \<open>
  C2. With \<^verbatim>\<open>ensureUndeployed\<close> passing: the action with intent \<^verbatim>\<open>inspect\<close> on an
  open inspector returns success, calls nothing on the external inspector and leaves the
  flag; the action with intent \<^verbatim>\<open>stop-inspect\<close> on a closed inspector does the same;
  and after two consecutive \<^verbatim>\<open>inspect\<close> actions (whatever the external
  \<^verbatim>\<open>open()\<close> of the first one does) the second has returned success without a call
  and the loader reports \<^verbatim>\<open>inspectorRunning\<close> true.
\<close>

theorem redundant_toggle_succeeds:
  "(flag_truthy (inspector_open s) \<longrightarrow>
      fst (action None insp (Form_string ''inspect'') s) = Inr (Success True)
      \<and> inspector_calls (snd (action None insp (Form_string ''inspect'') s)) = inspector_calls s
      \<and> inspector_open (snd (action None insp (Form_string ''inspect'') s)) = inspector_open s)
   \<and> (\<not> flag_truthy (inspector_open s) \<longrightarrow>
      fst (action None insp (Form_string ''stop-inspect'') s) = Inr (Success True)
      \<and> inspector_calls (snd (action None insp (Form_string ''stop-inspect'') s))
          = inspector_calls s
      \<and> inspector_open (snd (action None insp (Form_string ''stop-inspect'') s))
          = inspector_open s)
   \<and> (let s1 = snd (action None insp (Form_string ''inspect'') s);
           r2 = action None insp' (Form_string ''inspect'') s1
       in fst r2 = Inr (Success True)
          \<and> inspector_calls (snd r2) = inspector_calls s1
          \<and> (\<exists>d. fst (loader None (Inr catalog) (snd r2)) = Inr d
                \<and> inspectorRunning d = Some True))"
proof -
  let ?s1 = "snd (action None insp (Form_string ''inspect'') s)"
  have t: "flag_truthy (inspector_open ?s1)"
    by (simp add: flag_after_inspect flag_truthy_def)
  show ?thesis
    using action_inspect_open[OF t, of insp']
    by (simp add: action_inspect_open action_stop_closed Let_def loader_def flag_after_inspect)
qed

theorem redundant_toggle_succeeds_witness:
  "action None \<lparr> open_outcome = Some (Thrown_by ''inspector.open''), close_outcome = None \<rparr>
      (Form_string ''inspect'')
      \<lparr> devProcesses = DAList.empty, testProcesses = DAList.empty,
        inspector_open = Some True, inspector_calls = [Inspector_open], console = [],
        allocator = \<lparr> usedPorts = {}, port_range = (3000, 3002) \<rparr> \<rparr>
     = (Inr (Success True),
        \<lparr> devProcesses = DAList.empty, testProcesses = DAList.empty,
          inspector_open = Some True, inspector_calls = [Inspector_open],
          console = [''Inspector already running.''],
          allocator = \<lparr> usedPorts = {}, port_range = (3000, 3002) \<rparr> \<rparr>)
   \<and> action None \<lparr> open_outcome = None, close_outcome = Some (Thrown_by ''inspector.close'') \<rparr>
      (Form_string ''stop-inspect'')
      \<lparr> devProcesses = DAList.empty, testProcesses = DAList.empty,
        inspector_open = None, inspector_calls = [], console = [],
        allocator = \<lparr> usedPorts = {}, port_range = (3000, 3002) \<rparr> \<rparr>
     = (Inr (Success True),
        \<lparr> devProcesses = DAList.empty, testProcesses = DAList.empty,
          inspector_open = None, inspector_calls = [],
          console = [''Inspector already stopped.''],
          allocator = \<lparr> usedPorts = {}, port_range = (3000, 3002) \<rparr> \<rparr>)"
proof -
  let ?i1 = "\<lparr> open_outcome = Some (Thrown_by ''inspector.open''), close_outcome = None \<rparr>"
  let ?i2 = "\<lparr> open_outcome = None, close_outcome = Some (Thrown_by ''inspector.close'') \<rparr>"
  let ?s1 = "\<lparr> devProcesses = DAList.empty, testProcesses = DAList.empty,
        inspector_open = Some True, inspector_calls = [Inspector_open], console = [],
        allocator = \<lparr> usedPorts = {}, port_range = (3000, 3002) \<rparr> \<rparr>"
  let ?s2 = "\<lparr> devProcesses = DAList.empty, testProcesses = DAList.empty,
        inspector_open = None, inspector_calls = [], console = [],
        allocator = \<lparr> usedPorts = {}, port_range = (3000, 3002) \<rparr> \<rparr>"
  have h1: "flag_truthy (inspector_open ?s1)" by (simp add: flag_truthy_def)
  have h2: "\<not> flag_truthy (inspector_open ?s2)" by (simp add: flag_truthy_def)
  from redundant_toggle_succeeds[of ?s1 ?i1] h1
  have a: "fst (action None ?i1 (Form_string ''inspect'') ?s1) = Inr (Success True)"
    by blast
  from redundant_toggle_succeeds[of ?s2 ?i2] h2
  have b: "fst (action None ?i2 (Form_string ''stop-inspect'') ?s2) = Inr (Success True)"
    by blast
  have c: "snd (action None ?i1 (Form_string ''inspect'') ?s1)
      = ?s1 \<lparr> console := [''Inspector already running.''] \<rparr>"
    by (simp add: action_def flag_truthy_def)
  have d: "snd (action None ?i2 (Form_string ''stop-inspect'') ?s2)
      = ?s2 \<lparr> console := [''Inspector already stopped.''] \<rparr>"
    by (simp add: action_def flag_truthy_def)
  show ?thesis
    using a b c d by (simp add: prod_eq_iff)
qed

text \<open>
  C8. For an intent that is neither \<^verbatim>\<open>inspect\<close> nor \<^verbatim>\<open>stop-inspect\<close> (a missing
  intent is \<open>Form_null\<close>), the action, once \<^verbatim>\<open>ensureUndeployed\<close> has passed, throws
  \<^verbatim>\<open>Error('Unknown intent: ...')\<close>; whatever \<^verbatim>\<open>ensureUndeployed\<close> does, the action
  throws and the state, with the inspector flag and both registries, is as before.
\<close>

theorem unknown_intent_throws:
  assumes "intent \<noteq> Form_string ''inspect''" and "intent \<noteq> Form_string ''stop-inspect''"
  shows "action None insp intent s = (Inl (Error (''Unknown intent: '' @ intent_text intent)), s)
     \<and> (\<forall>ensureUndeployed. snd (action ensureUndeployed insp intent s) = s
            \<and> isl (fst (action ensureUndeployed insp intent s)))"
  using assms by (simp add: action_def split: option.split)

theorem unknown_intent_throws_witness:
  "action None \<lparr> open_outcome = None, close_outcome = None \<rparr> Form_null
      \<lparr> devProcesses = DAList.empty, testProcesses = DAList.empty,
        inspector_open = Some True, inspector_calls = [Inspector_open], console = [],
        allocator = \<lparr> usedPorts = {}, port_range = (3000, 3002) \<rparr> \<rparr>
     = (Inl (Error ''Unknown intent: null''),
        \<lparr> devProcesses = DAList.empty, testProcesses = DAList.empty,
          inspector_open = Some True, inspector_calls = [Inspector_open], console = [],
          allocator = \<lparr> usedPorts = {}, port_range = (3000, 3002) \<rparr> \<rparr>)"
proof -
  have h1: "Form_null \<noteq> Form_string ''inspect''" by simp
  have h2: "Form_null \<noteq> Form_string ''stop-inspect''" by simp
  from unknown_intent_throws[OF h1 h2] show ?thesis
    by (simp add: intent_text_def)
qed

subsection \<open>Client hints\<close>

lemma split_nonempty: "split sep s \<noteq> []"
  by (induction s) (auto split: list.split)

lemma hd_split: "hd (split sep s) = takeWhile (\<lambda>x. x \<noteq> sep) s"
  using split_nonempty[of sep] by (induction s) (auto split: list.split)

lemma split_prefix:
  "sep \<notin> set n \<Longrightarrow> split sep (n @ sep # v) = n # split sep v"
  using split_nonempty[of sep] by (induction n) (auto split: list.split)

lemma second_of_split:
  assumes "sep \<notin> set n"
  shows "array_get (split sep (n @ sep # v)) 1 = Some (takeWhile (\<lambda>x. x \<noteq> sep) v)"
proof -
  obtain w ws where w: "split sep v = w # ws"
    using split_nonempty[of sep v] by (cases "split sep v") auto
  then have "w = takeWhile (\<lambda>x. x \<noteq> sep) v"
    using hd_split[of sep v] by simp
  then show ?thesis
    by (simp add: split_prefix[OF assms] w array_get_def)
qed

lemma startsWith_decomp: "startsWith c (n @ [sep]) \<Longrightarrow> c = n @ sep # drop (Suc (length n)) c"
  unfolding startsWith_def
  by (metis append.assoc append_Cons append_Nil append_take_drop_id length_append_singleton)

lemma second_of_split_startsWith:
  assumes "sep \<notin> set n" and "startsWith c (n @ [sep])"
  shows "array_get (split sep c) 1 = Some (takeWhile (\<lambda>x. x \<noteq> sep) (drop (Suc (length n)) c))"
  using second_of_split[OF assms(1), of "drop (Suc (length n)) c"] startsWith_decomp[OF assms(2)]
  by simp

lemma find_satisfies: "List.find P xs = Some c \<Longrightarrow> P c"
  by (auto simp: find_Some_iff)

lemma getCookieValue_theme_raw:
  "getCookieValue cs ''theme''
     = Inr (map_option (\<lambda>c. takeWhile (\<lambda>x. x \<noteq> CHR ''='') (drop (length ''KCDShop_CH-prefers-color-scheme='') c))
             (List.find (\<lambda>c. startsWith c ''KCDShop_CH-prefers-color-scheme='')
                (map trim (split CHR '';'' cs))))"
proof (cases "List.find (\<lambda>c. startsWith c ''KCDShop_CH-prefers-color-scheme='')
                (map trim (split CHR '';'' cs))")
  case None
  then show ?thesis by (simp add: getCookieValue_def clientHints_def)
next
  case (Some c)
  then have "startsWith c (''KCDShop_CH-prefers-color-scheme'' @ [CHR ''=''])"
    using find_satisfies[OF Some] by simp
  then have "array_get (split CHR ''='' c) 1
      = Some (takeWhile (\<lambda>x. x \<noteq> CHR ''='') (drop (length ''KCDShop_CH-prefers-color-scheme='') c))"
    using second_of_split_startsWith[of "CHR ''=''" "''KCDShop_CH-prefers-color-scheme''" c]
    by simp
  then show ?thesis using Some by (simp add: getCookieValue_def clientHints_def)
qed

lemma getCookieValue_reducedMotion_raw:
  "getCookieValue cs ''reducedMotion''
     = Inr (map_option (\<lambda>c. takeWhile (\<lambda>x. x \<noteq> CHR ''='') (drop (length ''KCDShop_CH-reduced-motion='') c))
             (List.find (\<lambda>c. startsWith c ''KCDShop_CH-reduced-motion='')
                (map trim (split CHR '';'' cs))))"
proof (cases "List.find (\<lambda>c. startsWith c ''KCDShop_CH-reduced-motion='')
                (map trim (split CHR '';'' cs))")
  case None
  then show ?thesis by (simp add: getCookieValue_def clientHints_def)
next
  case (Some c)
  then have "startsWith c (''KCDShop_CH-reduced-motion'' @ [CHR ''=''])"
    using find_satisfies[OF Some] by simp
  then have "array_get (split CHR ''='' c) 1
      = Some (takeWhile (\<lambda>x. x \<noteq> CHR ''='') (drop (length ''KCDShop_CH-reduced-motion='') c))"
    using second_of_split_startsWith[of "CHR ''=''" "''KCDShop_CH-reduced-motion''" c]
    by simp
  then show ?thesis using Some by (simp add: getCookieValue_def clientHints_def)
qed

lemma Object_entries_clientHints: "Object_entries clientHints = clientHints"
  by (simp add: Object_entries_def clientHints_def is_array_index_def is_digit_def)

text \<open>
  C10 (amended). \<^verbatim>\<open>getHints\<close> returns for every cookie string, with \<open>theme\<close> either
  \<open>dark\<close> or \<open>light\<close> and \<open>reducedMotion\<close> either \<open>reduce\<close> or \<open>no-preference\<close>.
  \<open>theme\<close> is \<open>dark\<close> exactly when, in the first trimmed \<open>;\<close>-separated cookie that
  starts with the theme cookie's name and \<open>=\<close>, the text after that prefix up to the
  next \<open>=\<close> (or to the end) is \<open>dark\<close>; likewise \<open>reducedMotion\<close> and \<open>reduce\<close>.
  \<^verbatim>\<open>getCookieValue\<close> does not throw for the two hint names.
\<close>

theorem getHints_total:
  "getHints document_cookie request
     = Inr [(''theme'',
             if map_option (\<lambda>c. takeWhile (\<lambda>x. x \<noteq> CHR ''='') (drop (length ''KCDShop_CH-prefers-color-scheme='') c))
                  (List.find (\<lambda>c. startsWith c ''KCDShop_CH-prefers-color-scheme='')
                     (map trim (split CHR '';'' (cookie_string document_cookie request))))
                = Some ''dark''
             then ''dark'' else ''light''),
            (''reducedMotion'',
             if map_option (\<lambda>c. takeWhile (\<lambda>x. x \<noteq> CHR ''='') (drop (length ''KCDShop_CH-reduced-motion='') c))
                  (List.find (\<lambda>c. startsWith c ''KCDShop_CH-reduced-motion='')
                     (map trim (split CHR '';'' (cookie_string document_cookie request))))
                = Some ''reduce''
             then ''reduce'' else ''no-preference'')]
   \<and> (\<exists>v. getCookieValue cookieString ''theme'' = Inr v)
   \<and> (\<exists>v. getCookieValue cookieString ''reducedMotion'' = Inr v)"
  unfolding getHints_def Object_entries_clientHints
  by (simp add: clientHints_def getCookieValue_theme_raw getCookieValue_reducedMotion_raw
      obj_set_def)

theorem getHints_counterexample:
  "getHints None (Some (Some ''KCDShop_CH-prefers-color-scheme=dark=x''))
     = Inr [(''theme'', ''dark''), (''reducedMotion'', ''no-preference'')]"
  unfolding getHints_def Object_entries_clientHints
  by (simp add: clientHints_def getCookieValue_def obj_set_def array_get_def cookie_string_def
      trim_def is_white_space_def startsWith_def)

end
